theory Spec2Isabelle
  imports Complex_Main "HOL-Library.AList"
begin

section \<open>Local gradient aggregation (eager helper)\<close>

text \<open>
  A shallow embedding of \<^verbatim>\<open>LocalGradientAggregationHelperEager\<close> from
  \<^verbatim>\<open>horovod/common/gradient_aggregation_eager.py\<close>.

  Modelling decisions.
  \<^item> A dense tensor is a value of a type \<open>'a::field\<close>: the tensors of one fixed shape with
    element-wise \<open>+\<close>, \<open>*\<close> and \<open>/\<close> in exact arithmetic. Rounding, overflow and NaN of
    floating point are not modelled, and neither are shape mismatches.
  \<^item> A gradient handed to the helper is \<^verbatim>\<open>None\<close>, a dense tensor or a
    \<^verbatim>\<open>tf.IndexedSlices\<close>.
  \<^item> \<^verbatim>\<open>compute_gradients\<close> is decorated with \<^verbatim>\<open>tf.function\<close>. It is modelled in two
    layers. \<open>compute_gradients\<close> is the Python function under the decorator, run statement
    by statement. \<open>traced_compute_gradients\<close> is a call through the decorator: the
    \<^verbatim>\<open>if\<close> of line 67 tests a tensor, so both of its branches are built when the call is
    traced, the Python statements of both run, and \<^verbatim>\<open>resulting_grads\<close> must have the same
    structure at the end of both. The two layers agree on every call that the traced one
    returns from, and on all runs in which every slot has a gradient.
  \<^item> \<^verbatim>\<open>self.shadow_var\<close> is a Python dict: an association list in insertion order, whose
    keys stay distinct because a key is appended only when it is missing.
  \<^item> \<^verbatim>\<open>self.counter\<close> is an integer; it never leaves \<open>[0, aggregation_frequency]\<close> in
    a run, so the width of the underlying variable plays no role.
  \<^item> Every \<^verbatim>\<open>raise\<close> and every \<^verbatim>\<open>assert\<close> is an error value. The three
    assertion sites all raise \<^verbatim>\<open>AssertionError\<close> in Python; they are told apart here by
    the place that raises. The Python function returns the state reached at the moment of
    the error with it, since Python keeps the mutations done before an exception.
\<close>

subsection \<open>Data\<close>

datatype 'a grad = is_absent: Absent | is_dense: Dense 'a | is_sparse: IndexedSlices 'a

datatype error =
    UnsupportedSparseGradient
  | AccumulationInvariantViolated
  | ReconstructionMismatch
  | IndexError
  | InvalidAggregationFrequency
  | StructureMismatch

record 'a config =
  allreduce_grads :: "'a list \<Rightarrow> 'a grad list"
  aggregation_frequency :: int
  average_aggregated_gradients :: bool
  sparse_as_dense :: bool

record 'a helper =
  shadow_var :: "(nat \<times> 'a) list"
  counter :: int
  num_none_grad_updates :: nat

definition initial_helper :: "'a helper" where
  "initial_helper = \<lparr>shadow_var = [], counter = 0, num_none_grad_updates = 0\<rparr>"

text \<open>The constructor: its only check is \<^verbatim>\<open>assert self.aggregation_frequency > 0\<close>.\<close>

definition new_helper :: "'a config \<Rightarrow> error + 'a helper" where
  "new_helper cfg =
     (if aggregation_frequency cfg > 0 then Inr initial_helper
      else Inl InvalidAggregationFrequency)"

subsection \<open>\<^verbatim>\<open>compute_gradients\<close>\<close>

text \<open>
  The loop over \<^verbatim>\<open>enumerate(grads)\<close> (lines 42 to 62). \<open>idx\<close> is the current position,
  \<open>res\<close> the list \<^verbatim>\<open>resulting_grads\<close> built so far. A missing key is the case
  \<open>map_of \<dots> idx = None\<close>; a new buffer starts at \<^verbatim>\<open>zeros_like(grad)\<close> and the gradient
  is added to it at once, hence the value \<open>0 + g\<close>.
\<close>

fun accumulate :: "'a::field helper \<Rightarrow> nat \<Rightarrow> 'a grad list \<Rightarrow> 'a list
    \<Rightarrow> 'a helper \<times> (error + 'a list)" where
  "accumulate s idx [] res = (s, Inr res)"
| "accumulate s idx (grad # grads) res =
     (case grad of
        IndexedSlices v \<Rightarrow> (s, Inl UnsupportedSparseGradient)
      | Absent \<Rightarrow>
          (case map_of (shadow_var s) idx of
             None \<Rightarrow> accumulate
                (s\<lparr>num_none_grad_updates := num_none_grad_updates s + 1\<rparr>) (Suc idx) grads res
           | Some v \<Rightarrow> accumulate s (Suc idx) grads res)
      | Dense g \<Rightarrow>
          (case map_of (shadow_var s) idx of
             None \<Rightarrow> accumulate
                (s\<lparr>shadow_var := shadow_var s @ [(idx, 0 + g)]\<rparr>) (Suc idx) grads
                (res @ [0 + g])
           | Some v \<Rightarrow> accumulate
                (s\<lparr>shadow_var := AList.update idx (v + g) (shadow_var s)\<rparr>) (Suc idx) grads
                (res @ [v + g])))"

text \<open>\<^verbatim>\<open>_allreduce_helper\<close> (lines 82 to 98).\<close>

definition scale_grad :: "'a::field \<Rightarrow> 'a grad \<Rightarrow> 'a grad" where
  "scale_grad gradient_divisor grad =
     (case grad of Dense t \<Rightarrow> Dense (t / gradient_divisor) | Absent \<Rightarrow> Absent
      | IndexedSlices v \<Rightarrow> IndexedSlices v)"

definition allreduce_helper :: "'a::field config \<Rightarrow> 'a list \<Rightarrow> 'a grad list" where
  "allreduce_helper cfg grads =
     (let allreduced_grads = allreduce_grads cfg grads in
      if aggregation_frequency cfg > 1 then
        (let gradient_divisor =
           (if average_aggregated_gradients cfg then of_int (aggregation_frequency cfg) else 1)
         in map (scale_grad gradient_divisor) allreduced_grads)
      else allreduced_grads)"

text \<open>\<^verbatim>\<open>_clear_vars\<close> (lines 100 to 103).\<close>

definition clear_vars :: "'a::field helper \<Rightarrow> 'a helper" where
  "clear_vars s =
     s\<lparr>counter := 0, shadow_var := map (\<lambda>(idx, v). (idx, v + (- 1) * v)) (shadow_var s)\<rparr>"

text \<open>
  The list comprehension of lines 70 to 73, over the positions \<open>idxs\<close>. Reading
  \<^verbatim>\<open>resulting_grads[idx]\<close> beyond the end of the list raises \<^verbatim>\<open>IndexError\<close>.
\<close>

fun reconstruct :: "(nat \<times> 'a) list \<Rightarrow> 'a grad list \<Rightarrow> nat list \<Rightarrow> error + 'a grad list" where
  "reconstruct sv resulting_grads [] = Inr []"
| "reconstruct sv resulting_grads (idx # idxs) =
     (case map_of sv idx of
        Some v \<Rightarrow>
          (if idx < length resulting_grads then
             (case reconstruct sv resulting_grads idxs of
                Inl e \<Rightarrow> Inl e
              | Inr out \<Rightarrow> Inr (resulting_grads ! idx # out))
           else Inl IndexError)
      | None \<Rightarrow>
          (case reconstruct sv resulting_grads idxs of
             Inl e \<Rightarrow> Inl e
           | Inr out \<Rightarrow> Inr (Absent # out)))"

text \<open>
  The Python function \<^verbatim>\<open>compute_gradients\<close> (lines 40 to 80), run statement by statement.
  On a step that does not synchronise the returned list is \<^verbatim>\<open>resulting_grads\<close> as the loop
  left it: the buffers' values, all dense.
\<close>

definition compute_gradients :: "'a::field config \<Rightarrow> 'a helper \<Rightarrow> 'a grad list
    \<Rightarrow> 'a helper \<times> (error + 'a grad list)" where
  "compute_gradients cfg s grads =
     (case accumulate s 0 grads [] of
        (s1, Inl e) \<Rightarrow> (s1, Inl e)
      | (s1, Inr res) \<Rightarrow>
          if length (shadow_var s1) + num_none_grad_updates s1 \<noteq> length grads
          then (s1, Inl AccumulationInvariantViolated)
          else
            (let s2 = s1\<lparr>counter := counter s1 + 1\<rparr> in
             if counter s2 = aggregation_frequency cfg then
               (let resulting_grads = allreduce_helper cfg res in
                if length resulting_grads \<noteq> length (shadow_var s2)
                then (s2, Inl ReconstructionMismatch)
                else
                  (case reconstruct (shadow_var s2) resulting_grads
                          [0 ..< length resulting_grads + num_none_grad_updates s2] of
                     Inl e \<Rightarrow> (s2, Inl e)
                   | Inr out \<Rightarrow>
                       if length out \<noteq> length (shadow_var s2) + num_none_grad_updates s2
                       then (s2, Inl ReconstructionMismatch)
                       else (clear_vars s2, Inr out)))
             else (s2, Inr (map Dense res))))"

subsection \<open>A call through \<^verbatim>\<open>tf.function\<close>\<close>

text \<open>
  The structure of a list of gradients is its length and, position by position, whether the
  entry is \<^verbatim>\<open>None\<close>, a tensor or an \<^verbatim>\<open>IndexedSlices\<close>.
\<close>

fun same_kind :: "'a grad \<Rightarrow> 'a grad \<Rightarrow> bool" where
  "same_kind Absent Absent = True"
| "same_kind (Dense x) (Dense y) = True"
| "same_kind (IndexedSlices x) (IndexedSlices y) = True"
| "same_kind _ _ = False"

fun same_structure :: "'a grad list \<Rightarrow> 'a grad list \<Rightarrow> bool" where
  "same_structure [] [] = True"
| "same_structure (x # xs) (y # ys) = (same_kind x y \<and> same_structure xs ys)"
| "same_structure _ _ = False"

text \<open>
  A call of \<^verbatim>\<open>compute_gradients\<close> as decorated (line 39). Tracing runs the Python statements
  in the order of the source: the loop (lines 42 to 62, with the \<^verbatim>\<open>raise\<close> of line 44), the
  assertion of line 64, then the branch under the \<^verbatim>\<open>if\<close> of line 67 with its assertions and
  its list comprehension (lines 68 to 78), whatever the counter, then the empty other branch.
  The conversion of the \<^verbatim>\<open>if\<close> then raises a \<^verbatim>\<open>TypeError\<close>, here \<open>StructureMismatch\<close>,
  unless \<^verbatim>\<open>resulting_grads\<close> has the same structure in both branches. Only then is the
  graph executed, and the counter decides which branch's list is returned.

  Three things are left out. The structure of what the reduce returns is read off its
  result on the values of the call; a reduce that can be traced has one structure for all
  inputs of one length. A trace that succeeded is kept by \<^verbatim>\<open>tf.function\<close> and not
  repeated for the same kinds of inputs; here every call is traced, which repeats checks
  that passed and changes nothing as long as the calls of a run have the same length. An
  exception ends the run, and the state it leaves behind is not returned.
\<close>

definition traced_compute_gradients :: "'a::field config \<Rightarrow> 'a helper \<Rightarrow> 'a grad list
    \<Rightarrow> error + 'a helper \<times> 'a grad list" where
  "traced_compute_gradients cfg s grads =
     (case accumulate s 0 grads [] of
        (s1, Inl e) \<Rightarrow> Inl e
      | (s1, Inr res) \<Rightarrow>
          if length (shadow_var s1) + num_none_grad_updates s1 \<noteq> length grads
          then Inl AccumulationInvariantViolated
          else
            (let s2 = s1\<lparr>counter := counter s1 + 1\<rparr>;
                 resulting_grads = allreduce_helper cfg res
             in
               if length resulting_grads \<noteq> length (shadow_var s2)
               then Inl ReconstructionMismatch
               else
                 (case reconstruct (shadow_var s2) resulting_grads
                         [0 ..< length resulting_grads + num_none_grad_updates s2] of
                    Inl e \<Rightarrow> Inl e
                  | Inr out \<Rightarrow>
                      if length out \<noteq> length (shadow_var s2) + num_none_grad_updates s2
                      then Inl ReconstructionMismatch
                      else if \<not> same_structure out (map Dense res)
                      then Inl StructureMismatch
                      else if counter s2 = aggregation_frequency cfg
                      then Inr (clear_vars s2, out)
                      else Inr (s2, map Dense res))))"

subsection \<open>The step driver\<close>

text \<open>A single worker: the external reduce hands every buffer value back unchanged.\<close>

definition single_worker :: "int \<Rightarrow> bool \<Rightarrow> bool \<Rightarrow> 'a config" where
  "single_worker f average sparse =
     \<lparr>allreduce_grads = map Dense, aggregation_frequency = f,
      average_aggregated_gradients = average, sparse_as_dense = sparse\<rparr>"


text \<open>
  Whether a step synchronised is read off the counter, as \<^verbatim>\<open>apply_gradients\<close> does with
  \<^verbatim>\<open>tf.equal(self.counter, 0)\<close> (lines 113 and 134).
\<close>

definition sync_occurred :: "'a helper \<Rightarrow> bool" where
  "sync_occurred s = (counter s = 0)"

text \<open>
  The external step driver calls \<^verbatim>\<open>compute_gradients\<close> once per training step and stops at
  the first exception. \<open>run_steps\<close> returns, for every step, whether it synchronised and the
  list it returned; it runs the Python function, \<open>run_traced\<close> below the decorated one.
\<close>

fun run_steps :: "'a::field config \<Rightarrow> 'a helper \<Rightarrow> 'a grad list list
    \<Rightarrow> 'a helper \<times> (error + (bool \<times> 'a grad list) list)" where
  "run_steps cfg s [] = (s, Inr [])"
| "run_steps cfg s (grads # rest) =
     (case compute_gradients cfg s grads of
        (s1, Inl e) \<Rightarrow> (s1, Inl e)
      | (s1, Inr out) \<Rightarrow>
          (case run_steps cfg s1 rest of
             (s2, Inl e) \<Rightarrow> (s2, Inl e)
           | (s2, Inr outs) \<Rightarrow> (s2, Inr ((sync_occurred s1, out) # outs))))"

fun run_traced :: "'a::field config \<Rightarrow> 'a helper \<Rightarrow> 'a grad list list
    \<Rightarrow> error + 'a helper \<times> (bool \<times> 'a grad list) list" where
  "run_traced cfg s [] = Inr (s, [])"
| "run_traced cfg s (grads # rest) =
     (case traced_compute_gradients cfg s grads of
        Inl e \<Rightarrow> Inl e
      | Inr (s1, out) \<Rightarrow>
          (case run_traced cfg s1 rest of
             Inl e \<Rightarrow> Inl e
           | Inr (s2, outs) \<Rightarrow> Inr (s2, (sync_occurred s1, out) # outs)))"

subsection \<open>\<^verbatim>\<open>apply_gradients\<close>\<close>

text \<open>
  The closures handed to \<^verbatim>\<open>tf.cond\<close> act on the state of the training process: the helper,
  the optimizer's \<^verbatim>\<open>_iterations\<close> (\<open>None\<close> when the attribute is missing or is
  \<^verbatim>\<open>None\<close>) and the rest of the optimizer, which the helper never looks into. A closure
  is a function from that state to its result and the state it leaves.
\<close>

record ('a, 'o) world =
  helper_of :: "'a helper"
  iterations :: "int option"
  optimizer_state :: "'o"

datatype 'r op = Applied 'r | AssignAddOp | NoOp

datatype 'v pyval = Val 'v | PyFalse

record ('a, 'o, 'v, 'r) optimizer =
  aggregate_gradients :: "'v \<Rightarrow> ('a, 'o) world \<Rightarrow> 'v \<times> ('a, 'o) world"
  super_apply_gradients ::
    "'v \<Rightarrow> (string \<times> 'v pyval) list \<Rightarrow> ('a, 'o) world \<Rightarrow> 'r \<times> ('a, 'o) world"

definition tf_cond :: "bool \<Rightarrow> ('w \<Rightarrow> 'b) \<Rightarrow> ('w \<Rightarrow> 'b) \<Rightarrow> 'w \<Rightarrow> 'b" where
  "tf_cond pred true_fn false_fn w = (if pred then true_fn w else false_fn w)"

definition increment_optimizer_iteration :: "('a, 'o) world \<Rightarrow> 'r op \<times> ('a, 'o) world" where
  "increment_optimizer_iteration w =
     (case iterations w of
        Some n \<Rightarrow> (AssignAddOp, w\<lparr>iterations := Some (n + 1)\<rparr>)
      | None \<Rightarrow> (NoOp, w))"

definition run_closure :: "(('a, 'o) world \<Rightarrow> 'r \<times> ('a, 'o) world)
    \<Rightarrow> ('a, 'o) world \<Rightarrow> 'r op \<times> ('a, 'o) world" where
  "run_closure c w = (case c w of (r, w') \<Rightarrow> (Applied r, w'))"

definition aggregation_step :: "('a, 'o, 'v, 'r) optimizer \<Rightarrow> 'v \<Rightarrow> 'v list
    \<Rightarrow> (string \<times> 'v pyval) list \<Rightarrow> ('a, 'o) world \<Rightarrow> 'r op \<times> ('a, 'o) world" where
  "aggregation_step opt updated_grad_and_vars args kwargs =
     (let kwargs1 = (if length args > 1 then AList.update ''name'' (Val (args ! 1)) kwargs
                     else kwargs);
          kwargs2 = AList.update ''experimental_aggregate_gradients'' PyFalse kwargs1
      in run_closure (super_apply_gradients opt updated_grad_and_vars kwargs2))"

definition non_aggregation_step :: "('a, 'o) world \<Rightarrow> 'r op \<times> ('a, 'o) world" where
  "non_aggregation_step = increment_optimizer_iteration"

text \<open>
  \<^verbatim>\<open>apply_gradients\<close> (lines 105 to 137). \<open>pre_tf_2_4_0\<close> is the module constant
  \<^verbatim>\<open>_PRE_TF_2_4_0\<close>. After it, \<^verbatim>\<open>args[0]\<close> is read first, which raises
  \<^verbatim>\<open>IndexError\<close> on an empty \<^verbatim>\<open>args\<close>, and \<^verbatim>\<open>_aggregate_gradients\<close> runs before
  the counter is tested.
\<close>

definition apply_gradients :: "bool \<Rightarrow> (('a, 'o) world \<Rightarrow> 'r \<times> ('a, 'o) world)
    \<Rightarrow> ('a, 'o, 'v, 'r) optimizer \<Rightarrow> 'v list \<Rightarrow> (string \<times> 'v pyval) list
    \<Rightarrow> ('a, 'o) world \<Rightarrow> error + 'r op \<times> ('a, 'o) world" where
  "apply_gradients pre_tf_2_4_0 apply_grads_closure opt args kwargs w =
     (if pre_tf_2_4_0 then
        Inr (tf_cond (counter (helper_of w) = 0)
               (run_closure apply_grads_closure) increment_optimizer_iteration w)
      else
        (case args of
           [] \<Rightarrow> Inl IndexError
         | a0 # _ \<Rightarrow>
             (case aggregate_gradients opt a0 w of
                (updated_grad_and_vars, w1) \<Rightarrow>
                  Inr (tf_cond (counter (helper_of w1) = 0)
                         (aggregation_step opt updated_grad_and_vars args kwargs)
                         non_aggregation_step w1))))"

subsection \<open>Notions used to state the results\<close>

text \<open>
  The state \<^verbatim>\<open>_clear_vars\<close> leaves behind when the slots \<open>0, \<dots>, P - 1\<close> all own a buffer:
  every buffer zero, the counter zero.
\<close>

definition reset_helper :: "nat \<Rightarrow> 'a::zero helper" where
  "reset_helper P =
     \<lparr>shadow_var = enumerate 0 (replicate P 0), counter = 0, num_none_grad_updates = 0\<rparr>"



text \<open>A concrete optimizer and training state, used to run the apply gate on an example.\<close>

definition demo_optimizer :: "(real, nat, nat, string) optimizer" where
  "demo_optimizer =
     \<lparr>aggregate_gradients = (\<lambda>v w. (v, w)),
      super_apply_gradients = (\<lambda>v kwargs w. (''updated'', w\<lparr>optimizer_state := v\<rparr>))\<rparr>"

definition demo_world :: "int \<Rightarrow> (real, nat) world" where
  "demo_world c =
     \<lparr>helper_of = \<lparr>shadow_var = [], counter = c, num_none_grad_updates = 0\<rparr>,
      iterations = Some 7, optimizer_state = 0\<rparr>"

section \<open>Auxiliary facts\<close>

lemmas eval_defs = single_worker_def initial_helper_def compute_gradients_def allreduce_helper_def
  scale_grad_def clear_vars_def sync_occurred_def upt_rec Let_def

subsection \<open>Sparse gradients\<close>

lemma accumulate_sparse:
  "list_ex is_sparse grads \<Longrightarrow> snd (accumulate s idx grads res) = Inl UnsupportedSparseGradient"
  by (induction grads arbitrary: s idx res) (auto split: grad.splits option.splits)

lemma compute_gradients_sparse:
  "list_ex is_sparse grads \<Longrightarrow> snd (compute_gradients cfg s grads) = Inl UnsupportedSparseGradient"
  using accumulate_sparse [of grads s 0 "[]"]
  by (cases "accumulate s 0 grads []") (auto simp: compute_gradients_def)

lemma allreduce_helper_flag:
  "allreduce_helper (cfg\<lparr>sparse_as_dense := b\<rparr>) res = allreduce_helper cfg res"
  by (simp add: allreduce_helper_def Let_def)

lemma compute_gradients_flag:
  "compute_gradients (cfg\<lparr>sparse_as_dense := b\<rparr>) s grads = compute_gradients cfg s grads"
  by (simp add: compute_gradients_def allreduce_helper_flag Let_def split: prod.splits sum.splits)

lemma nth_list_ex: "i < length xs \<Longrightarrow> P (xs ! i) \<Longrightarrow> list_ex P xs"
  by (auto simp: list_ex_iff)

subsection \<open>Lengths, the counter and the reconstruction\<close>

lemma accumulate_length:
  "accumulate s idx grads res = (s1, Inr r) \<Longrightarrow>
     length r = length res + length (filter is_dense grads) \<and> counter s1 = counter s"
  by (induction grads arbitrary: s idx res) (auto split: grad.splits option.splits)

lemma accumulate_counter:
  "accumulate s idx grads res = (s1, r) \<Longrightarrow> counter s1 = counter s"
  by (induction grads arbitrary: s idx res) (auto split: grad.splits option.splits)

lemma reconstruct_error: "reconstruct sv rg idxs = Inl e \<Longrightarrow> e = IndexError"
  by (induction idxs arbitrary: e) (auto split: option.splits if_splits sum.splits)

lemma reconstruct_length: "reconstruct sv rg idxs = Inr out \<Longrightarrow> length out = length idxs"
  by (induction idxs arbitrary: out) (auto split: option.splits if_splits sum.splits)

lemma reconstruct_all_present:
  "list_all (\<lambda>idx. idx < length rg \<and> map_of sv idx \<noteq> None) idxs \<Longrightarrow>
     reconstruct sv rg idxs = Inr (map (nth rg) idxs)"
  by (induction idxs) auto

lemma sync_occurred_after_step:
  assumes "0 \<le> counter s" and "compute_gradients cfg s grads = (s', Inr out)"
  shows "sync_occurred s' = (counter s + 1 = aggregation_frequency cfg)"
proof (cases "accumulate s 0 grads []")
  case (Pair s1 r)
  then have "counter s1 = counter s" by (rule accumulate_counter)
  with assms Pair show ?thesis
    by (auto simp: compute_gradients_def Let_def sync_occurred_def clear_vars_def
        split: sum.splits if_splits)
qed

subsection \<open>Buffers for the slots \<open>0, \<dots>, P - 1\<close>\<close>

lemma map_of_enumerate:
  "map_of (enumerate n xs) i = (if n \<le> i \<and> i < n + length xs then Some (xs ! (i - n)) else None)"
proof (induction xs arbitrary: n)
  case Nil
  then show ?case by simp
next
  case (Cons x xs)
  then show ?case by (auto simp: nth_Cons' Suc_diff_le)
qed

lemma update_enumerate:
  "n \<le> i \<Longrightarrow> i < n + length xs \<Longrightarrow>
     AList.update i x (enumerate n xs) = enumerate n (xs[i - n := x])"
proof (induction xs arbitrary: n)
  case Nil
  then show ?case by simp
next
  case (Cons y ys)
  show ?case
  proof (cases "i = n")
    case True
    then show ?thesis by simp
  next
    case False
    with Cons.prems have le: "Suc n \<le> i" and less: "i < Suc n + length ys" by simp_all
    then have diff: "i - n = Suc (i - Suc n)" by simp
    show ?thesis
      using Cons.IH [OF le less] False by (simp add: diff)
  qed
qed

lemma reconstruct_enumerate:
  "length rg = length vs \<Longrightarrow> reconstruct (enumerate 0 vs) rg [0..<length rg] = Inr rg"
proof -
  assume len: "length rg = length vs"
  have "list_all (\<lambda>idx. idx < length rg \<and> map_of (enumerate 0 vs) idx \<noteq> None) [0..<length rg]"
    using len by (simp add: list_all_iff map_of_enumerate)
  then have "reconstruct (enumerate 0 vs) rg [0..<length rg] = Inr (map (nth rg) [0..<length rg])"
    by (rule reconstruct_all_present)
  then show ?thesis by (simp add: map_nth)
qed

lemma clear_enumerate:
  "map (\<lambda>(idx, v). (idx, v + (- 1) * v)) (enumerate n (vs :: 'a::field list))
     = enumerate n (replicate (length vs) 0)"
  by (induction vs arbitrary: n) simp_all

lemma clear_vars_enumerate:
  "shadow_var s = enumerate 0 vs \<Longrightarrow>
     clear_vars s = s\<lparr>counter := 0, shadow_var := enumerate 0 (replicate (length vs) 0)\<rparr>"
  unfolding clear_vars_def by (simp only: clear_enumerate)

lemma zero_buffers: "length ts = n \<Longrightarrow> map2 (+) (replicate n (0::'a::field)) ts = ts"
  by (induction ts arbitrary: n) auto




lemma scale_grad_one: "scale_grad (1::'a::field) g = g"
  by (cases g) (simp_all add: scale_grad_def)

lemma allreduce_helper_eq:
  "allreduce_helper cfg xs =
     (if average_aggregated_gradients cfg \<and> 1 < aggregation_frequency cfg
      then map (scale_grad (of_int (aggregation_frequency cfg))) (allreduce_grads cfg xs)
      else allreduce_grads cfg xs)"
  by (simp add: allreduce_helper_def Let_def scale_grad_one [abs_def])

lemma length_allreduce_helper:
  "length (allreduce_helper cfg xs) = length (allreduce_grads cfg xs)"
  by (simp add: allreduce_helper_def Let_def)

subsection \<open>Calls in which every slot has a gradient\<close>

lemma accumulate_existing:
  "shadow_var s = enumerate 0 (pre @ vs) \<Longrightarrow> length ts = length vs \<Longrightarrow>
     accumulate s (length pre) (map Dense ts) res
       = (s\<lparr>shadow_var := enumerate 0 (pre @ map2 (+) vs ts)\<rparr>, Inr (res @ map2 (+) vs ts))"
proof (induction ts arbitrary: s pre vs res)
  case Nil
  then show ?case by simp
next
  case (Cons t ts)
  then obtain v vs' where vs: "vs = v # vs'" by (cases vs) auto
  let ?s = "s\<lparr>shadow_var := enumerate 0 ((pre @ [v + t]) @ vs')\<rparr>"
  have look: "map_of (shadow_var s) (length pre) = Some v"
    using Cons.prems vs by (simp add: map_of_enumerate)
  have upd: "AList.update (length pre) (v + t) (shadow_var s) = enumerate 0 ((pre @ [v + t]) @ vs')"
    using Cons.prems vs by (simp add: update_enumerate)
  have "accumulate ?s (length (pre @ [v + t])) (map Dense ts) (res @ [v + t])
      = (?s\<lparr>shadow_var := enumerate 0 ((pre @ [v + t]) @ map2 (+) vs' ts)\<rparr>,
         Inr ((res @ [v + t]) @ map2 (+) vs' ts))"
    by (rule Cons.IH) (use Cons.prems vs in simp_all)
  then show ?case using look upd vs by simp
qed

lemma accumulate_fresh:
  "shadow_var s = enumerate 0 pre \<Longrightarrow>
     accumulate s (length pre) (map Dense ts) res
       = (s\<lparr>shadow_var := enumerate 0 (pre @ ts)\<rparr>, Inr (res @ ts))"
proof (induction ts arbitrary: s pre res)
  case Nil
  then show ?case by simp
next
  case (Cons t ts)
  let ?s = "s\<lparr>shadow_var := enumerate 0 (pre @ [t])\<rparr>"
  have look: "map_of (shadow_var s) (length pre) = None"
    using Cons.prems by (simp add: map_of_enumerate)
  have app: "shadow_var s @ [(length pre, t)] = enumerate 0 (pre @ [t])"
    using Cons.prems by (simp add: enumerate_append_eq)
  have "accumulate ?s (length (pre @ [t])) (map Dense ts) (res @ [t])
      = (?s\<lparr>shadow_var := enumerate 0 ((pre @ [t]) @ ts)\<rparr>, Inr ((res @ [t]) @ ts))"
    by (rule Cons.IH) simp
  then show ?case using look app by simp
qed

lemma step_existing:
  assumes sv: "shadow_var s = enumerate 0 vs" and len: "length ts = length vs"
    and none: "num_none_grad_updates s = 0"
  shows "compute_gradients cfg s (map Dense ts) =
     (if counter s + 1 = aggregation_frequency cfg then
        (if length (allreduce_helper cfg (map2 (+) vs ts)) \<noteq> length ts
         then (s\<lparr>shadow_var := enumerate 0 (map2 (+) vs ts), counter := counter s + 1\<rparr>,
               Inl ReconstructionMismatch)
         else (s\<lparr>shadow_var := enumerate 0 (replicate (length ts) 0), counter := 0\<rparr>,
               Inr (allreduce_helper cfg (map2 (+) vs ts))))
      else (s\<lparr>shadow_var := enumerate 0 (map2 (+) vs ts), counter := counter s + 1\<rparr>,
            Inr (map Dense (map2 (+) vs ts))))"
proof -
  have acc: "accumulate s 0 (map Dense ts) []
      = (s\<lparr>shadow_var := enumerate 0 (map2 (+) vs ts)\<rparr>, Inr (map2 (+) vs ts))"
    using accumulate_existing [of s "[]" vs ts "[]"] sv len by simp
  show ?thesis
  proof (cases "length (allreduce_helper cfg (map2 (+) vs ts)) = length ts")
    case True
    then have "reconstruct (enumerate 0 (map2 (+) vs ts)) (allreduce_helper cfg (map2 (+) vs ts))
        [0..<length (allreduce_helper cfg (map2 (+) vs ts))]
      = Inr (allreduce_helper cfg (map2 (+) vs ts))"
      using len by (intro reconstruct_enumerate) simp
    then show ?thesis
      using acc len none True
      by (simp add: compute_gradients_def Let_def
            clear_vars_enumerate [where vs = "map2 (+) vs ts"])
  next
    case False
    then show ?thesis
      using acc len none by (simp add: compute_gradients_def Let_def)
  qed
qed

lemma step_fresh:
  assumes sv: "shadow_var s = []" and none: "num_none_grad_updates s = 0"
  shows "compute_gradients cfg s (map Dense ts)
    = compute_gradients cfg (s\<lparr>shadow_var := enumerate 0 (replicate (length ts) 0)\<rparr>)
        (map Dense ts)"
proof -
  have acc: "accumulate s 0 (map Dense ts) []
      = (s\<lparr>shadow_var := enumerate 0 ts\<rparr>, Inr ts)"
    using accumulate_fresh [of s "[]" ts "[]"] sv by simp
  have acc': "accumulate (s\<lparr>shadow_var := enumerate 0 (replicate (length ts) 0)\<rparr>) 0
        (map Dense ts) []
      = (s\<lparr>shadow_var := enumerate 0 ts\<rparr>, Inr ts)"
    using accumulate_existing [of "s\<lparr>shadow_var := enumerate 0 (replicate (length ts) 0)\<rparr>"
        "[]" "replicate (length ts) 0" ts "[]"]
    by (simp add: zero_buffers)
  show ?thesis
    unfolding compute_gradients_def acc acc' ..
qed




lemma run_steps_initial:
  "list_all (\<lambda>ts. length ts = P) tss \<Longrightarrow> tss \<noteq> [] \<Longrightarrow>
     run_steps cfg initial_helper (map (map Dense) tss)
       = run_steps cfg (reset_helper P) (map (map Dense) tss)"
proof (cases tss)
  case Nil
  assume "tss \<noteq> []"
  with Nil show ?thesis by simp
next
  case (Cons ts rest)
  assume "list_all (\<lambda>ts. length ts = P) tss"
  with Cons have "length ts = P" by simp
  then have "compute_gradients cfg initial_helper (map Dense ts)
      = compute_gradients cfg (reset_helper P) (map Dense ts)"
    using step_fresh [of initial_helper cfg ts] by (simp add: initial_helper_def reset_helper_def)
  with Cons show ?thesis by simp
qed

lemma frequency_one_reset:
  fixes cfg :: "'a::field config"
  assumes "aggregation_frequency cfg = 1"
    and "list_all (\<lambda>ts. length ts = P) tss"
    and "list_all (\<lambda>ts. length (allreduce_grads cfg ts) = P) tss"
  shows "run_steps cfg (reset_helper P) (map (map Dense) tss)
    = (reset_helper P, Inr (map (\<lambda>ts. (True, allreduce_grads cfg ts)) tss))"
  using assms(2,3)
proof (induction tss)
  case Nil
  then show ?case by simp
next
  case (Cons ts tss)
  then have len: "length ts = P" and red: "length (allreduce_grads cfg ts) = P" by simp_all
  have "compute_gradients cfg (reset_helper P) (map Dense ts)
      = (reset_helper P, Inr (allreduce_grads cfg ts))"
    using step_existing [of "reset_helper P" "replicate P 0" ts cfg] assms(1) len red
    by (simp add: reset_helper_def zero_buffers allreduce_helper_eq)
  moreover have "sync_occurred (reset_helper P :: 'a helper)"
    by (simp add: sync_occurred_def reset_helper_def)
  ultimately show ?case using Cons by simp
qed

text \<open>
  With aggregation frequency 1, a run in which every call has a tensor for every slot
  synchronises on every step and returns the reduce of the step's own input.
\<close>

lemma frequency_one_dense:
  fixes cfg :: "'a::field config"
  assumes "aggregation_frequency cfg = 1"
    and "list_all (\<lambda>ts. length ts = P) tss"
    and "list_all (\<lambda>ts. length (allreduce_grads cfg ts) = P) tss"
  shows "snd (run_steps cfg initial_helper (map (map Dense) tss))
    = Inr (map (\<lambda>ts. (True, allreduce_grads cfg ts)) tss)"
proof (cases "tss = []")
  case True
  then show ?thesis by simp
next
  case False
  then show ?thesis
    using run_steps_initial [OF assms(2) False, of cfg] frequency_one_reset [OF assms]
    by simp
qed

subsection \<open>Calls through \<^verbatim>\<open>tf.function\<close>\<close>

lemmas traced_eval_defs = single_worker_def initial_helper_def traced_compute_gradients_def
  allreduce_helper_def scale_grad_def clear_vars_def sync_occurred_def upt_rec Let_def

lemma same_structure_length: "same_structure xs ys \<Longrightarrow> length xs = length ys"
  by (induction xs ys rule: same_structure.induct) simp_all

lemma same_structure_dense:
  "same_structure xs (map Dense ts) = (length xs = length ts \<and> list_all is_dense xs)"
proof (induction xs arbitrary: ts)
  case Nil
  then show ?case by (cases ts) simp_all
next
  case (Cons x xs)
  show ?case
  proof (cases ts)
    case Nil
    then show ?thesis by simp
  next
    case (Cons t ts')
    with Cons.IH [of ts'] show ?thesis by (cases x) auto
  qed
qed

lemma all_dense_filter:
  "length (filter is_dense grads) = length grads \<Longrightarrow> list_all is_dense grads"
proof (induction grads)
  case Nil
  then show ?case by simp
next
  case (Cons g grads)
  have "length (filter is_dense grads) \<le> length grads" by simp
  with Cons show ?case by (cases "is_dense g") auto
qed

lemma traced_success:
  assumes "traced_compute_gradients cfg s grads = Inr (s', out)"
  shows "\<exists>s1 res out_t.
      accumulate s 0 grads [] = (s1, Inr res)
    \<and> length (shadow_var s1) + num_none_grad_updates s1 = length grads
    \<and> length (allreduce_helper cfg res) = length (shadow_var s1)
    \<and> reconstruct (shadow_var s1) (allreduce_helper cfg res) [0..<length grads] = Inr out_t
    \<and> same_structure out_t (map Dense res)
    \<and> (s', out) = (if counter s1 + 1 = aggregation_frequency cfg
                    then (clear_vars (s1\<lparr>counter := counter s1 + 1\<rparr>), out_t)
                    else (s1\<lparr>counter := counter s1 + 1\<rparr>, map Dense res))"
proof (cases "accumulate s 0 grads []")
  case (Pair s1 r)
  show ?thesis
  proof (cases r)
    case (Inl e)
    with Pair assms show ?thesis by (simp add: traced_compute_gradients_def)
  next
    case (Inr res)
    with Pair assms show ?thesis
      by (auto simp: traced_compute_gradients_def Let_def split: if_splits sum.splits)
  qed
qed

lemma is_dense_scale_grad: "is_dense (scale_grad d g) = is_dense g"
  by (cases g) (simp_all add: scale_grad_def)

lemma allreduce_helper_dense:
  "list_all is_dense (allreduce_helper cfg xs) = list_all is_dense (allreduce_grads cfg xs)"
  by (simp add: allreduce_helper_def Let_def list_all_iff is_dense_scale_grad)

text \<open>A traced call that returns has returned what the Python function returns.\<close>

lemma traced_agrees_with_body:
  assumes "traced_compute_gradients cfg s grads = Inr (s', out)"
  shows "compute_gradients cfg s grads = (s', Inr out)"
proof -
  from traced_success [OF assms] obtain s1 res out_t where
    acc: "accumulate s 0 grads [] = (s1, Inr res)"
    and inv: "length (shadow_var s1) + num_none_grad_updates s1 = length grads"
    and rlen: "length (allreduce_helper cfg res) = length (shadow_var s1)"
    and rec: "reconstruct (shadow_var s1) (allreduce_helper cfg res) [0..<length grads] = Inr out_t"
    and res: "(s', out) = (if counter s1 + 1 = aggregation_frequency cfg
                    then (clear_vars (s1\<lparr>counter := counter s1 + 1\<rparr>), out_t)
                    else (s1\<lparr>counter := counter s1 + 1\<rparr>, map Dense res))"
    by blast
  have olen: "length out_t = length grads"
    using reconstruct_length [OF rec] by simp
  show ?thesis
    using acc inv rlen rec res olen
    by (simp add: compute_gradients_def Let_def split: if_splits)
qed

text \<open>
  When every slot has a gradient and the reduce returns one tensor per buffer, the traced
  call and the Python function do the same, on a single call and over a whole run.
\<close>

lemma traced_step_existing:
  assumes sv: "shadow_var s = enumerate 0 vs" and len: "length ts = length vs"
    and none: "num_none_grad_updates s = 0"
    and rlen: "length (allreduce_grads cfg (map2 (+) vs ts)) = length ts"
    and rdense: "list_all is_dense (allreduce_grads cfg (map2 (+) vs ts))"
  shows "traced_compute_gradients cfg s (map Dense ts) =
     Inr (if counter s + 1 = aggregation_frequency cfg
          then (s\<lparr>shadow_var := enumerate 0 (replicate (length ts) 0), counter := 0\<rparr>,
                allreduce_helper cfg (map2 (+) vs ts))
          else (s\<lparr>shadow_var := enumerate 0 (map2 (+) vs ts), counter := counter s + 1\<rparr>,
                map Dense (map2 (+) vs ts)))"
proof -
  let ?sums = "map2 (+) vs ts"
  have acc: "accumulate s 0 (map Dense ts) [] = (s\<lparr>shadow_var := enumerate 0 ?sums\<rparr>, Inr ?sums)"
    using accumulate_existing [of s "[]" vs ts "[]"] sv len by simp
  have hlen: "length (allreduce_helper cfg ?sums) = length ts"
    using rlen by (simp add: length_allreduce_helper)
  have rec: "reconstruct (enumerate 0 ?sums) (allreduce_helper cfg ?sums)
        [0..<length (allreduce_helper cfg ?sums)] = Inr (allreduce_helper cfg ?sums)"
    using hlen len by (intro reconstruct_enumerate) simp
  have str: "same_structure (allreduce_helper cfg ?sums) (map Dense ?sums)"
    using hlen len rdense by (subst same_structure_dense) (simp add: allreduce_helper_dense)
  show ?thesis
    using acc len none hlen rec str
    by (simp add: traced_compute_gradients_def Let_def
        clear_vars_enumerate [where vs = ?sums])
qed

lemma traced_step_fresh:
  assumes sv: "shadow_var s = []" and none: "num_none_grad_updates s = 0"
  shows "traced_compute_gradients cfg s (map Dense ts)
    = traced_compute_gradients cfg (s\<lparr>shadow_var := enumerate 0 (replicate (length ts) 0)\<rparr>)
        (map Dense ts)"
proof -
  have acc: "accumulate s 0 (map Dense ts) [] = (s\<lparr>shadow_var := enumerate 0 ts\<rparr>, Inr ts)"
    using accumulate_fresh [of s "[]" ts "[]"] sv by simp
  have acc': "accumulate (s\<lparr>shadow_var := enumerate 0 (replicate (length ts) 0)\<rparr>) 0
        (map Dense ts) []
      = (s\<lparr>shadow_var := enumerate 0 ts\<rparr>, Inr ts)"
    using accumulate_existing [of "s\<lparr>shadow_var := enumerate 0 (replicate (length ts) 0)\<rparr>"
        "[]" "replicate (length ts) 0" ts "[]"]
    by (simp add: zero_buffers)
  show ?thesis
    unfolding traced_compute_gradients_def acc acc' ..
qed

lemma run_traced_existing:
  fixes cfg :: "'a::field config"
  assumes reduce: "\<And>xs. length (allreduce_grads cfg xs) = length xs
                        \<and> list_all is_dense (allreduce_grads cfg xs)"
    and "shadow_var s = enumerate 0 vs" and "num_none_grad_updates s = 0"
    and "list_all (\<lambda>ts. length ts = length vs) tss"
  shows "\<exists>s' outs. run_steps cfg s (map (map Dense) tss) = (s', Inr outs)
                  \<and> run_traced cfg s (map (map Dense) tss) = Inr (s', outs)"
  using assms(2-)
proof (induction tss arbitrary: s vs)
  case Nil
  then show ?case by simp
next
  case (Cons ts tss)
  let ?sums = "map2 (+) vs ts"
  let ?s1 = "if counter s + 1 = aggregation_frequency cfg
             then s\<lparr>shadow_var := enumerate 0 (replicate (length ts) 0), counter := 0\<rparr>
             else s\<lparr>shadow_var := enumerate 0 ?sums, counter := counter s + 1\<rparr>"
  let ?out = "if counter s + 1 = aggregation_frequency cfg
              then allreduce_helper cfg ?sums else map Dense ?sums"
  let ?vs1 = "if counter s + 1 = aggregation_frequency cfg
              then replicate (length ts) 0 else ?sums"
  have len: "length ts = length vs" using Cons.prems(3) by simp
  have body: "compute_gradients cfg s (map Dense ts) = (?s1, Inr ?out)"
    using step_existing [OF Cons.prems(1) len Cons.prems(2), of cfg] reduce [of ?sums] len
    by (simp add: length_allreduce_helper)
  have traced: "traced_compute_gradients cfg s (map Dense ts) = Inr (?s1, ?out)"
    using traced_step_existing [OF Cons.prems(1) len Cons.prems(2), of cfg] reduce [of ?sums] len
    by simp
  have "\<exists>s' outs. run_steps cfg ?s1 (map (map Dense) tss) = (s', Inr outs)
                  \<and> run_traced cfg ?s1 (map (map Dense) tss) = Inr (s', outs)"
  proof (rule Cons.IH [of ?s1 ?vs1])
    show "shadow_var ?s1 = enumerate 0 ?vs1" by simp
    show "num_none_grad_updates ?s1 = 0" using Cons.prems(2) by simp
    show "list_all (\<lambda>ts. length ts = length ?vs1) tss" using Cons.prems(3) len by simp
  qed
  then obtain s' outs where rest: "run_steps cfg ?s1 (map (map Dense) tss) = (s', Inr outs)"
    "run_traced cfg ?s1 (map (map Dense) tss) = Inr (s', outs)" by blast
  show ?case
    using body traced rest by (simp del: run_steps.simps run_traced.simps add: run_steps.simps(2) run_traced.simps(2))
qed

lemma run_traced_dense:
  fixes cfg :: "'a::field config"
  assumes reduce: "\<And>xs. length (allreduce_grads cfg xs) = length xs
                        \<and> list_all is_dense (allreduce_grads cfg xs)"
    and start: "s = initial_helper \<or> s = reset_helper P"
    and dense: "list_all (\<lambda>ts. length ts = P) tss"
  shows "\<exists>s' outs. run_steps cfg s (map (map Dense) tss) = (s', Inr outs)
                  \<and> run_traced cfg s (map (map Dense) tss) = Inr (s', outs)"
proof (cases tss)
  case Nil
  then show ?thesis by simp
next
  case (Cons ts rest)
  have from_reset: "\<exists>s' outs.
      run_steps cfg (reset_helper P) (map (map Dense) tss) = (s', Inr outs)
    \<and> run_traced cfg (reset_helper P) (map (map Dense) tss) = Inr (s', outs)"
    using run_traced_existing [of cfg "reset_helper P" "replicate P 0" tss] reduce dense
    by (simp add: reset_helper_def)
  have lts: "length ts = P" using dense Cons by simp
  have "traced_compute_gradients cfg initial_helper (map Dense ts)
      = traced_compute_gradients cfg (reset_helper P) (map Dense ts)"
    using traced_step_fresh [of initial_helper cfg ts] lts
    by (simp add: initial_helper_def reset_helper_def)
  then have "run_traced cfg initial_helper (map (map Dense) tss)
      = run_traced cfg (reset_helper P) (map (map Dense) tss)"
    using Cons by simp
  moreover have "run_steps cfg initial_helper (map (map Dense) tss)
      = run_steps cfg (reset_helper P) (map (map Dense) tss)"
    using run_steps_initial [OF dense, of cfg] Cons by simp
  ultimately show ?thesis using from_reset start by auto
qed


section \<open>The claims\<close>

text \<open>
  C1. For every aggregation frequency \<open>f > 1\<close>, \<open>f\<close> consecutive calls with one and the same
  presence pattern synchronise on the \<open>f\<close>-th call and only there, and leave every buffer
  zero and the counter zero. The code does so when every slot has a gradient (see
  \<open>dense_cycle\<close> and \<open>run_traced_dense\<close> above), but not for a pattern with an absent slot.
  Here \<open>f = 2\<close> and the pattern is (present, absent): the first call already raises while
  it is traced, because \<^verbatim>\<open>resulting_grads\<close> is \<open>[r\<^sub>0, None]\<close> at the end of the branch under
  the \<^verbatim>\<open>if\<close> of line 67 and \<open>[b\<^sub>0]\<close> at the end of the other, so no call of the run
  returns.
\<close>

theorem absent_pattern_raises_on_first_call:
  "traced_compute_gradients (single_worker 2 False False) initial_helper [Dense (1::real), Absent]
     = Inl StructureMismatch
   \<and> run_traced (single_worker 2 False False) initial_helper
        [[Dense (1::real), Absent], [Dense 2, Absent]] = Inl StructureMismatch"
  by (simp add: traced_eval_defs)



text \<open>
  C3. The end-to-end example: frequency 3, two slots, gradients \<open>[1, 10]\<close>, \<open>[2, 20]\<close>,
  \<open>[3, 30]\<close>, averaging on, identity reduce. The first two calls do not synchronise, the
  third does and returns \<open>[2, 20]\<close>, and both buffers are zero afterwards.
\<close>

theorem end_to_end_example:
  "run_steps (single_worker 3 True False) initial_helper
     [[Dense (1::real), Dense 10], [Dense 2, Dense 20], [Dense 3, Dense 30]]
   = (\<lparr>shadow_var = [(0, 0), (1, 0)], counter = 0, num_none_grad_updates = 0\<rparr>,
      Inr [(False, [Dense 1, Dense 10]), (False, [Dense 3, Dense 30]),
           (True, [Dense 2, Dense 20])])"
  by (simp add: eval_defs)

text \<open>
  C4. A slot that is absent on every call is to appear as "absent" at its position in every
  returned list. The code returns no list at all: a call in which some slot is absent
  raises, from every state, for every configuration and whatever the other slots hold.
  Only the branch under the \<^verbatim>\<open>if\<close> of line 67 puts the placeholders back (lines 70 to 73),
  so the two branches end with lists of different structure, unless the call has failed
  before on one of the assertions or on the \<^verbatim>\<open>IndexError\<close> of line 71.
\<close>

theorem absent_slot_raises:
  assumes "k < length grads" and "grads ! k = Absent"
  shows "isl (traced_compute_gradients cfg s grads)"
proof (rule ccontr)
  assume "\<not> isl (traced_compute_gradients cfg s grads)"
  then obtain s' out where ok: "traced_compute_gradients cfg s grads = Inr (s', out)"
    by (cases "traced_compute_gradients cfg s grads") auto
  from traced_success [OF ok] obtain s1 res out_t where
    acc: "accumulate s 0 grads [] = (s1, Inr res)"
    and rec: "reconstruct (shadow_var s1) (allreduce_helper cfg res) [0..<length grads] = Inr out_t"
    and str: "same_structure out_t (map Dense res)"
    by blast
  have "length res = length (filter is_dense grads)"
    using accumulate_length [OF acc] by simp
  moreover have "length out_t = length grads"
    using reconstruct_length [OF rec] by simp
  moreover have "length out_t = length res"
    using same_structure_length [OF str] by simp
  ultimately have "list_all is_dense grads"
    by (intro all_dense_filter) simp
  with assms show False by (auto simp: list_all_length)
qed

theorem absent_slot_raises_witness:
  "(1::nat) < length [Dense (5::real), Absent, Dense 7]
   \<and> [Dense (5::real), Absent, Dense 7] ! 1 = Absent
   \<and> traced_compute_gradients (single_worker 2 False False) initial_helper
        [Dense (5::real), Absent, Dense 7] = Inl IndexError"
  using absent_slot_raises [of 1 "[Dense (5::real), Absent, Dense 7]"
      "single_worker 2 False False" initial_helper]
  by (simp add: traced_eval_defs)

text \<open>
  C5. Every call that returns, returns one entry per input position, on a step that
  synchronises and on one that does not.
\<close>

theorem traced_output_length:
  assumes "traced_compute_gradients cfg s grads = Inr (s', out)"
  shows "length out = length grads"
proof -
  from traced_success [OF assms] obtain s1 res out_t where
    rec: "reconstruct (shadow_var s1) (allreduce_helper cfg res) [0..<length grads] = Inr out_t"
    and str: "same_structure out_t (map Dense res)"
    and res: "(s', out) = (if counter s1 + 1 = aggregation_frequency cfg
                    then (clear_vars (s1\<lparr>counter := counter s1 + 1\<rparr>), out_t)
                    else (s1\<lparr>counter := counter s1 + 1\<rparr>, map Dense res))"
    by blast
  have "length out_t = length grads"
    using reconstruct_length [OF rec] by simp
  moreover have "length (map Dense res) = length out_t"
    using same_structure_length [OF str] by simp
  ultimately show ?thesis using res by (simp split: if_splits)
qed

theorem traced_output_length_witness:
  "traced_compute_gradients (single_worker 2 True False) initial_helper [Dense (1::real), Dense 10]
     = Inr (\<lparr>shadow_var = [(0, 1), (1, 10)], counter = 1, num_none_grad_updates = 0\<rparr>,
            [Dense 1, Dense 10])
   \<and> traced_compute_gradients (single_worker 2 True False)
        \<lparr>shadow_var = [(0, 1), (1, 10)], counter = 1, num_none_grad_updates = 0\<rparr>
        [Dense (3::real), Dense 30]
     = Inr (\<lparr>shadow_var = [(0, 0), (1, 0)], counter = 0, num_none_grad_updates = 0\<rparr>,
            [Dense 2, Dense 20])
   \<and> length [Dense (1::real), Dense 10] = length [Dense (1::real), Dense 10]
   \<and> length [Dense (2::real), Dense 20] = length [Dense (3::real), Dense 30]"
  using traced_output_length [of "single_worker 2 True False" initial_helper
      "[Dense (1::real), Dense 10]"
      "\<lparr>shadow_var = [(0, 1), (1, 10)], counter = 1, num_none_grad_updates = 0\<rparr>"
      "[Dense 1, Dense 10]"]
    traced_output_length [of "single_worker 2 True False"
      "\<lparr>shadow_var = [(0, 1), (1, 10)], counter = 1, num_none_grad_updates = 0\<rparr>"
      "[Dense (3::real), Dense 30]"
      "\<lparr>shadow_var = [(0, 0), (1, 0)], counter = 0, num_none_grad_updates = 0\<rparr>"
      "[Dense 2, Dense 20]"]
  by (simp add: traced_eval_defs)

text \<open>
  C6. With aggregation frequency 1 every call is to synchronise and return the reduce of its
  own gradients. The code does so when every slot has a gradient (see \<open>frequency_one_dense\<close>
  and \<open>run_traced_dense\<close> above). A call with an absent slot raises instead: with the absent
  slot first on the \<^verbatim>\<open>IndexError\<close> of line 71, with the absent slot last on the structure
  of the two branches.
\<close>

theorem frequency_one_absent_slot_raises:
  "traced_compute_gradients (single_worker 1 False False) initial_helper [Absent, Dense (1::real)]
     = Inl IndexError
   \<and> traced_compute_gradients (single_worker 1 False False) initial_helper [Dense (4::real), Absent]
     = Inl StructureMismatch"
  by (simp add: traced_eval_defs)

text \<open>
  C7. The apply gate runs exactly one of the two closures given to \<^verbatim>\<open>tf.cond\<close> and returns
  its result: the applying closure when the counter is zero, that is when the step
  synchronised, and the closure that increments the optimizer's iteration otherwise. Before
  TensorFlow 2.4 the applying closure is \<^verbatim>\<open>apply_grads_closure\<close>; from 2.4 on it is
  \<^verbatim>\<open>aggregation_step\<close>, and the counter is read after \<^verbatim>\<open>_aggregate_gradients\<close> has run.
\<close>

theorem apply_gate:
  assumes "args = a0 # rest" and "aggregate_gradients opt a0 w = (u, w1)"
  shows "apply_gradients True apply_grads_closure opt args kwargs w
      = Inr (if sync_occurred (helper_of w) then run_closure apply_grads_closure w
             else increment_optimizer_iteration w)
    \<and> apply_gradients False apply_grads_closure opt args kwargs w
      = Inr (if sync_occurred (helper_of w1) then aggregation_step opt u args kwargs w1
             else non_aggregation_step w1)"
  using assms by (simp add: apply_gradients_def tf_cond_def sync_occurred_def)

theorem apply_gate_witness:
  "[5::nat] = 5 # [] \<and> aggregate_gradients demo_optimizer 5 (demo_world 0) = (5, demo_world 0)
   \<and> apply_gradients True (\<lambda>w. (''applied'', w\<lparr>optimizer_state := 1\<rparr>)) demo_optimizer [5] []
        (demo_world 0)
      = Inr (Applied ''applied'', (demo_world 0)\<lparr>optimizer_state := 1\<rparr>)
   \<and> apply_gradients False (\<lambda>w. (''applied'', w\<lparr>optimizer_state := 1\<rparr>)) demo_optimizer [5] []
        (demo_world 0)
      = Inr (Applied ''updated'', (demo_world 0)\<lparr>optimizer_state := 5\<rparr>)"
  using apply_gate [of "[5]" 5 "[]" demo_optimizer "demo_world 0" 5 "demo_world 0"
      "\<lambda>w. (''applied'', w\<lparr>optimizer_state := 1\<rparr>)" "[]"]
  by (simp add: demo_optimizer_def demo_world_def sync_occurred_def run_closure_def
      aggregation_step_def)

text \<open>
  C8. A call whose input holds a sparse gradient at some position, with
  \<^verbatim>\<open>sparse_as_dense\<close> false, fails on that call with the sparse-gradient error, for every
  aggregation frequency and every state.
\<close>

theorem sparse_rejected:
  "\<not> sparse_as_dense cfg \<Longrightarrow> i < length grads \<Longrightarrow> is_sparse (grads ! i) \<Longrightarrow>
     snd (compute_gradients cfg s grads) = Inl UnsupportedSparseGradient"
  by (rule compute_gradients_sparse) (rule nth_list_ex)

theorem sparse_rejected_witness:
  "\<not> sparse_as_dense (single_worker 3 True False :: real config)
   \<and> (1::nat) < length [Dense (1::real), IndexedSlices 5]
   \<and> is_sparse ([Dense (1::real), IndexedSlices 5] ! 1)
   \<and> snd (compute_gradients (single_worker 3 True False) initial_helper
             [Dense (1::real), IndexedSlices 5]) = Inl UnsupportedSparseGradient"
  using sparse_rejected [of "single_worker 3 True False :: real config" 1
      "[Dense (1::real), IndexedSlices 5]" initial_helper]
  by (simp add: single_worker_def)

text \<open>
  C9. Once the loop has gone through all positions, the call fails with the
  accumulation-invariant error exactly when the number of buffers plus
  \<^verbatim>\<open>num_none_grad_updates\<close> differs from the length of the input.
\<close>

theorem invariant_checked:
  "accumulate s 0 grads [] = (s1, Inr res) \<Longrightarrow>
     (snd (compute_gradients cfg s grads) = Inl AccumulationInvariantViolated)
       = (length (shadow_var s1) + num_none_grad_updates s1 \<noteq> length grads)"
  by (auto simp: compute_gradients_def Let_def split: sum.splits dest: reconstruct_error)

theorem invariant_checked_witness:
  "accumulate \<lparr>shadow_var = [(0, 1::real)], counter = 1, num_none_grad_updates = 1\<rparr> 0
       [Dense 2, Absent] []
     = (\<lparr>shadow_var = [(0, 3)], counter = 1, num_none_grad_updates = 2\<rparr>, Inr [3])
   \<and> snd (compute_gradients (single_worker 2 True False)
        \<lparr>shadow_var = [(0, 1::real)], counter = 1, num_none_grad_updates = 1\<rparr> [Dense 2, Absent])
       = Inl AccumulationInvariantViolated"
  using invariant_checked [of "\<lparr>shadow_var = [(0, 1::real)], counter = 1, num_none_grad_updates = 1\<rparr>"
      "[Dense 2, Absent]" "\<lparr>shadow_var = [(0, 3)], counter = 1, num_none_grad_updates = 2\<rparr>" "[3]"
      "single_worker 2 True False"]
  by simp

text \<open>
  C10. A call whose input holds a sparse gradient fails with the sparse-gradient error also
  when \<^verbatim>\<open>sparse_as_dense\<close> is true: the flag is never read, and the call behaves as with
  the flag false.
\<close>

theorem sparse_rejected_even_as_dense:
  "i < length grads \<Longrightarrow> is_sparse (grads ! i) \<Longrightarrow>
     snd (compute_gradients (cfg\<lparr>sparse_as_dense := True\<rparr>) s grads) = Inl UnsupportedSparseGradient
     \<and> compute_gradients (cfg\<lparr>sparse_as_dense := True\<rparr>) s grads
         = compute_gradients (cfg\<lparr>sparse_as_dense := False\<rparr>) s grads"
  using compute_gradients_sparse [of grads "cfg\<lparr>sparse_as_dense := True\<rparr>" s]
    nth_list_ex [of i grads is_sparse]
  by (simp add: compute_gradients_flag)

theorem sparse_rejected_even_as_dense_witness:
  "(0::nat) < length [IndexedSlices (2::real)]
   \<and> is_sparse ([IndexedSlices (2::real)] ! 0)
   \<and> snd (compute_gradients (single_worker 1 False True) initial_helper [IndexedSlices (2::real)])
       = Inl UnsupportedSparseGradient"
  using sparse_rejected_even_as_dense [of 0 "[IndexedSlices (2::real)]"
      "single_worker 1 False True" initial_helper]
  by (simp add: eval_defs)

end
